theory Spec2Isabelle
  imports Main "HOL-Library.AList" "HOL-Library.Multiset"
begin

section \<open>Strings\<close>

text \<open>
  Python strings are modelled as HOL strings (lists of characters). The model covers
  ASCII text: \<open>str.lower\<close> maps the letters A to Z to a to z and leaves every other
  character alone, \<open>\d\<close> is one of the ten ASCII digits, and the whitespace removed by
  \<open>str.strip\<close> is the ASCII whitespace (tab, line feed, vertical tab, form feed,
  carriage return, the four separators 0x1C to 0x1F and the space).
\<close>

definition ascii_upper :: string where
  "ascii_upper = ''ABCDEFGHIJKLMNOPQRSTUVWXYZ''"

definition ascii_lower :: string where
  "ascii_lower = ''abcdefghijklmnopqrstuvwxyz''"

definition lower_char :: "char \<Rightarrow> char" where
  "lower_char c = (case map_of (zip ascii_upper ascii_lower) c of None \<Rightarrow> c | Some d \<Rightarrow> d)"

text \<open>\<open>s.lower()\<close>\<close>

definition lower :: "string \<Rightarrow> string" where
  "lower s = map lower_char s"

text \<open>\<open>s.startswith(p)\<close>\<close>

fun startswith :: "string \<Rightarrow> string \<Rightarrow> bool" where
  "startswith s [] = True"
| "startswith [] (p # ps) = False"
| "startswith (c # cs) (p # ps) = (c = p \<and> startswith cs ps)"

text \<open>\<open>sub in s\<close>: plain substring containment.\<close>

fun contains :: "string \<Rightarrow> string \<Rightarrow> bool" where
  "contains sub [] = (sub = [])"
| "contains sub (c # cs) = (startswith (c # cs) sub \<or> contains sub cs)"

definition is_digit :: "char \<Rightarrow> bool" where
  "is_digit c = (c \<in> set ''0123456789'')"

text \<open>
  \<open>re.search(r'version \d+\.\d+', s)\<close>. A match at the head of \<open>s\<close> is the literal
  \<open>version\<close> and a space, one or more digits, a dot, and one or more digits. The first
  \<open>\d+\<close> has to take the whole run of digits, since the next character must be the dot.
\<close>

fun strip_prefix :: "string \<Rightarrow> string \<Rightarrow> string option" where
  "strip_prefix [] s = Some s"
| "strip_prefix (p # ps) [] = None"
| "strip_prefix (p # ps) (c # cs) = (if p = c then strip_prefix ps cs else None)"

definition match_version :: "string \<Rightarrow> bool" where
  "match_version s =
     (case strip_prefix ''version '' s of
        None \<Rightarrow> False
      | Some r \<Rightarrow>
          (case r of
             [] \<Rightarrow> False
           | d # _ \<Rightarrow>
               is_digit d \<and>
               (case dropWhile is_digit r of
                  a # b # _ \<Rightarrow> a = CHR ''.'' \<and> is_digit b
                | _ \<Rightarrow> False)))"

fun search_version :: "string \<Rightarrow> bool" where
  "search_version [] = match_version []"
| "search_version (c # cs) = (match_version (c # cs) \<or> search_version cs)"

section \<open>Repository data\<close>

text \<open>
  A dictionary is an association list in insertion order, as a Python \<open>dict\<close> keeps its
  keys. A key that may be absent from \<open>repo_data\<close> is an optional field, and each
  \<open>.get(key, default)\<close> of the source is written out where it happens.
\<close>

type_synonym ('k, 'v) dict = "('k \<times> 'v) list"

text \<open>\<open>d.get(k, default)\<close>\<close>

definition dict_get :: "('k, 'v) dict \<Rightarrow> 'k \<Rightarrow> 'v \<Rightarrow> 'v" where
  "dict_get d k dflt = (case map_of d k of None \<Rightarrow> dflt | Some v \<Rightarrow> v)"

record config_file =
  path :: "string option"

record repo_data =
  languages :: "(string, nat) dict option"
  readme :: "string option"
  techbragging :: "string option"
  config_files :: "config_file list option"
  services :: "(string, bool) dict option"

text \<open>\<open>x.get(key, default)\<close> on an optional field.\<close>

definition get_or :: "'a option \<Rightarrow> 'a \<Rightarrow> 'a" where
  "get_or v dflt = (case v of None \<Rightarrow> dflt | Some x \<Rightarrow> x)"

section \<open>Maturity estimation (\<open>analyze_repos.estimate_project_maturity\<close>)\<close>

text \<open>The local variables of the function, in the order of the source.\<close>

definition config_file_paths :: "repo_data \<Rightarrow> string list" where
  "config_file_paths rd = map (\<lambda>f. lower (get_or (path f) [])) (get_or (config_files rd) [])"

definition deploy_files :: "repo_data \<Rightarrow> string list" where
  "deploy_files rd =
     filter (\<lambda>f. contains ''deploy'' f \<or> contains ''production'' f \<or> contains ''kubernetes'' f
                 \<or> contains ''k8s'' f \<or> contains ''cloudflare'' f)
            (config_file_paths rd)"

definition test_files :: "repo_data \<Rightarrow> string list" where
  "test_files rd =
     filter (\<lambda>f. contains ''test'' f \<or> contains ''jest'' f \<or> contains ''cypress'' f
                 \<or> contains ''spec'' f)
            (config_file_paths rd)"

definition cicd_files :: "repo_data \<Rightarrow> string list" where
  "cicd_files rd =
     filter (\<lambda>f. contains ''.github/workflows'' f \<or> contains ''gitlab-ci'' f
                 \<or> contains ''jenkins'' f \<or> contains ''circleci'' f \<or> contains ''travis'' f)
            (config_file_paths rd)"

definition readme_lower :: "repo_data \<Rightarrow> string" where
  "readme_lower rd = lower (get_or (readme rd) [])"

definition has_contributing :: "repo_data \<Rightarrow> bool" where
  "has_contributing rd =
     (contains ''contributing'' (readme_lower rd) \<or> ''CONTRIBUTING.md'' \<in> set (config_file_paths rd))"

definition has_changelog :: "repo_data \<Rightarrow> bool" where
  "has_changelog rd =
     (contains ''changelog'' (readme_lower rd) \<or> ''CHANGELOG.md'' \<in> set (config_file_paths rd))"

definition has_version :: "repo_data \<Rightarrow> bool" where
  "has_version rd = search_version (readme_lower rd)"

definition has_monitoring :: "repo_data \<Rightarrow> bool" where
  "has_monitoring rd = dict_get (get_or (services rd) []) ''sentry'' False"

definition has_security :: "repo_data \<Rightarrow> bool" where
  "has_security rd = dict_get (get_or (services rd) []) ''snyk'' False"

text \<open>
  The decision chain. A list in a condition is true when it is not empty. The initial
  value \<open>Unknown\<close> of the variable \<open>maturity\<close> is overwritten on every branch.
\<close>

definition estimate_project_maturity :: "repo_data \<Rightarrow> string" where
  "estimate_project_maturity rd =
     (if deploy_files rd \<noteq> [] \<and> test_files rd \<noteq> [] \<and> cicd_files rd \<noteq> [] \<and> has_version rd then
        (if has_contributing rd \<and> has_changelog rd \<and> has_monitoring rd \<and> has_security rd then
           ''Production-Ready''
         else if deploy_files rd \<noteq> [] then ''Beta''
         else ''Alpha'')
      else if deploy_files rd = [] \<and> test_files rd = [] \<and> contains ''archived'' (readme_lower rd) then
        ''Legacy''
      else if deploy_files rd \<noteq> [] then ''Beta''
      else ''Alpha'')"

text \<open>The repository of the specification's examples.\<close>

definition example_paths :: "config_file list" where
  "example_paths =
     [\<lparr>path = Some ''kubernetes/deploy.yaml''\<rparr>,
      \<lparr>path = Some ''tests/unit.spec.js''\<rparr>,
      \<lparr>path = Some ''.github/workflows/ci.yml''\<rparr>]"

definition example_repo :: "string \<Rightarrow> repo_data" where
  "example_repo r =
     \<lparr>languages = None, readme = Some r, techbragging = None,
      config_files = Some example_paths,
      services = Some [(''sentry'', True), (''snyk'', True)]\<rparr>"

section \<open>Technology stack detection (\<open>analyze_repos.detect_tech_stack\<close>)\<close>

text \<open>
  The source collects the tags in a Python \<open>set\<close> and returns \<open>list(tech_stack)\<close>, whose
  order is not determined. The model keeps the tags in a list without repetitions, in the
  order in which they were added; the theorems speak of membership and multiplicity only.
\<close>

text \<open>\<open>tech_stack.add(x)\<close>\<close>

definition set_add :: "string \<Rightarrow> string list \<Rightarrow> string list" where
  "set_add x ts = (if x \<in> set ts then ts else ts @ [x])"

text \<open>
  The keyword test is \<open>re.search(r'\\b' + re.escape(keyword.lower()) + r'\\b', content)\<close>.
  The raw string \<open>r'\\b'\<close> holds two backslashes and the letter b; as a regular expression
  that is an escaped backslash followed by an ordinary b, not the word-boundary assertion
  \<open>\b\<close>. \<open>re.escape\<close> makes the keyword match itself character by character. The whole
  pattern is therefore a literal, and the search succeeds exactly when the content has the
  substring backslash, b, keyword, backslash, b.
\<close>

definition backslash_b :: string where
  "backslash_b = [CHR 0x5C, CHR ''b'']"

definition keyword_search :: "string \<Rightarrow> string \<Rightarrow> bool" where
  "keyword_search keyword content = contains (backslash_b @ lower keyword @ backslash_b) content"

definition frameworks :: "(string, string list) dict" where
  "frameworks =
     [(''react'', [''react'', ''jsx'', ''react-dom'', ''react native'', ''nextjs'', ''next.js'']),
      (''vue'', [''vue'', ''vuejs'', ''vue.js'', ''nuxt'']),
      (''angular'', [''angular'', ''angularjs'', ''ng-'']),
      (''django'', [''django'', ''djangorestframework'']),
      (''flask'', [''flask'', ''flask-'']),
      (''fastapi'', [''fastapi'', ''fast-api'']),
      (''express'', [''express'', ''expressjs'', ''express.js'']),
      (''spring'', [''spring boot'', ''spring framework'']),
      (''aws'', [''aws'', ''amazon web services'', ''s3'', ''ec2'', ''lambda'', ''dynamodb'']),
      (''azure'', [''azure'', ''microsoft azure'']),
      (''gcp'', [''gcp'', ''google cloud'', ''google cloud platform'']),
      (''kubernetes'', [''kubernetes'', ''k8s'', ''kubectl'']),
      (''docker'', [''docker'', ''containerization'', ''containerised'']),
      (''terraform'', [''terraform'', ''terragrunt'']),
      (''mongodb'', [''mongodb'', ''mongo'']),
      (''postgresql'', [''postgresql'', ''postgres'']),
      (''mysql'', [''mysql'']),
      (''redis'', [''redis'']),
      (''graphql'', [''graphql'', ''apollo'']),
      (''tailwind'', [''tailwind'', ''tailwindcss'', ''tailwind css'']),
      (''bootstrap'', [''bootstrap css'', ''bootstrap framework'']),
      (''webpack'', [''webpack'']),
      (''vite'', [''vite'']),
      (''jest'', [''jest'', ''jest testing'']),
      (''cypress'', [''cypress'', ''cypress.io'']),
      (''github actions'', [''github actions'', ''github workflow''])]"

text \<open>
  The inner loop over the aliases of one technology, with its \<open>break\<close>. The second
  component counts the tests \<open>keyword in content\<close> that the loop evaluates.
\<close>

fun scan_aliases :: "string \<Rightarrow> string list \<Rightarrow> string \<Rightarrow> string list \<Rightarrow> string list \<times> nat" where
  "scan_aliases tech [] content ts = (ts, 0)"
| "scan_aliases tech (keyword # rest) content ts =
     (if contains keyword content then (set_add tech ts, 1)
      else (case scan_aliases tech rest content ts of (ts', n) \<Rightarrow> (ts', Suc n)))"

text \<open>The first loop: every key of the language map.\<close>

definition add_languages :: "repo_data \<Rightarrow> string list \<Rightarrow> string list" where
  "add_languages rd ts =
     (case languages rd of
        None \<Rightarrow> ts
      | Some ls \<Rightarrow>
          if ls = [] then ts
          else foldl (\<lambda>acc lang. set_add (lower lang) acc) ts (map fst ls))"

text \<open>\<open>content\<close>: README and techbragging joined by a space, lowercased.\<close>

definition corpus :: "repo_data \<Rightarrow> string" where
  "corpus rd = lower (get_or (readme rd) [] @ '' '' @ get_or (techbragging rd) [])"

text \<open>The second loop: the configured keywords.\<close>

definition add_keywords :: "string list \<Rightarrow> string \<Rightarrow> string list \<Rightarrow> string list" where
  "add_keywords keywords content ts =
     foldl (\<lambda>acc keyword. if keyword_search keyword content then set_add (lower keyword) acc else acc)
           ts keywords"

text \<open>The third loop: the alias table, in the order of the dictionary.\<close>

definition add_frameworks :: "(string, string list) dict \<Rightarrow> string \<Rightarrow> string list \<Rightarrow> string list" where
  "add_frameworks table content ts =
     foldl (\<lambda>acc (tech, aliases). fst (scan_aliases tech aliases content acc)) ts table"

text \<open>
  The argument \<open>keywords\<close> is \<open>config['analysis']['tech_stack']['keywords']\<close>, the only
  part of the configuration that the function reads.
\<close>

definition detect_tech_stack :: "repo_data \<Rightarrow> string list \<Rightarrow> string list" where
  "detect_tech_stack rd keywords =
     add_frameworks frameworks (corpus rd) (add_keywords keywords (corpus rd) (add_languages rd []))"

text \<open>A repository with a README and nothing else.\<close>

definition plain_repo :: "string \<Rightarrow> repo_data" where
  "plain_repo r =
     \<lparr>languages = None, readme = Some r, techbragging = None,
      config_files = None, services = None\<rparr>"

definition react_aliases :: "string list" where
  "react_aliases = [''react'', ''jsx'', ''react-dom'', ''react native'', ''nextjs'', ''next.js'']"

section \<open>Service detection (\<open>utils.github.detect_services\<close>)\<close>

text \<open>
  The function calls GitHub twice: \<open>get_file_content\<close>, which returns the text of a file
  or \<open>None\<close> and never raises, and \<open>run_gh_cmd\<close>, which returns decoded JSON or raises.
  Both are parameters of the model. Of a JSON value only this matters: whether it is a
  list, and of which entries.
\<close>

datatype gh_result = CalledProcessError | JsonList "string list" | JsonOther

text \<open>\<open>{service: False for service in service_keywords}\<close>\<close>

definition init_services :: "string list \<Rightarrow> (string, bool) dict" where
  "init_services service_keywords = foldl (\<lambda>d service. AList.update service False d) [] service_keywords"

text \<open>The loop over the keywords for one file's lowercased content.\<close>

definition mark_services :: "string list \<Rightarrow> string \<Rightarrow> (string, bool) dict \<Rightarrow> (string, bool) dict" where
  "mark_services service_keywords content_lower d =
     foldl (\<lambda>acc service. if contains (lower service) content_lower
                            then AList.update service True acc else acc)
           d service_keywords"

text \<open>
  The body of the loop over the files. A \<open>file_meta\<close> without a path raises KeyError,
  which the \<open>try\<close> swallows; a content of \<open>None\<close> or the empty string is skipped.
\<close>

definition scan_file ::
  "(string \<Rightarrow> string \<Rightarrow> string \<Rightarrow> string option) \<Rightarrow> string \<Rightarrow> string \<Rightarrow> string list
    \<Rightarrow> (string, bool) dict \<Rightarrow> config_file \<Rightarrow> (string, bool) dict" where
  "scan_file get_file_content org repo service_keywords d file_meta =
     (case path file_meta of
        None \<Rightarrow> d
      | Some p \<Rightarrow>
          (case get_file_content org repo p of
             None \<Rightarrow> d
           | Some content \<Rightarrow>
               if content = [] then d
               else mark_services service_keywords (lower content) d))"

definition workflows_url :: "string \<Rightarrow> string \<Rightarrow> string list" where
  "workflows_url org repo = [''api'', ''repos/'' @ org @ ''/'' @ repo @ ''/contents/.github/workflows'']"

text \<open>
  The special check: \<open>isinstance(result, list) and len(result) > 0\<close>, false when the
  command raises.
\<close>

definition workflows_listed :: "(string list \<Rightarrow> gh_result) \<Rightarrow> string \<Rightarrow> string \<Rightarrow> bool" where
  "workflows_listed run_gh_cmd org repo =
     (case run_gh_cmd (workflows_url org repo) of
        JsonList result \<Rightarrow> length result > 0
      | _ \<Rightarrow> False)"

definition detect_services ::
  "(string \<Rightarrow> string \<Rightarrow> string \<Rightarrow> string option) \<Rightarrow> (string list \<Rightarrow> gh_result)
    \<Rightarrow> string \<Rightarrow> string \<Rightarrow> config_file list \<Rightarrow> string list \<Rightarrow> (string, bool) dict" where
  "detect_services get_file_content run_gh_cmd org repo cfs service_keywords =
     (let services = foldl (scan_file get_file_content org repo service_keywords)
                           (init_services service_keywords) cfs
      in if workflows_listed run_gh_cmd org repo
         then AList.update ''github actions'' True services
         else services)"

text \<open>
  Evidence for a service in one file, as \<open>scan_file\<close> tests it: the file has a path, its
  content was fetched and is not empty, and the lowercased content contains the
  lowercased keyword. \<open>evidence\<close>: some file of the list gives evidence.
\<close>

definition file_evidence ::
  "(string \<Rightarrow> string \<Rightarrow> string \<Rightarrow> string option) \<Rightarrow> string \<Rightarrow> string \<Rightarrow> config_file \<Rightarrow> string \<Rightarrow> bool" where
  "file_evidence get_file_content org repo file_meta service =
     (case path file_meta of
        None \<Rightarrow> False
      | Some p \<Rightarrow>
          (case get_file_content org repo p of
             None \<Rightarrow> False
           | Some content \<Rightarrow> content \<noteq> [] \<and> contains (lower service) (lower content)))"

definition evidence ::
  "(string \<Rightarrow> string \<Rightarrow> string \<Rightarrow> string option) \<Rightarrow> string \<Rightarrow> string \<Rightarrow> config_file list \<Rightarrow> string \<Rightarrow> bool" where
  "evidence get_file_content org repo cfs service =
     list_ex (\<lambda>file_meta. file_evidence get_file_content org repo file_meta service) cfs"

text \<open>An example: one file that mentions Sentry, one entry without a path, one workflow.\<close>

definition example_content :: "string \<Rightarrow> string \<Rightarrow> string \<Rightarrow> string option" where
  "example_content org repo p = (if p = ''config.yml'' then Some ''dsn: https://Sentry.io/1'' else None)"

definition example_gh :: "string list \<Rightarrow> gh_result" where
  "example_gh cmd =
     (if cmd = [''api'', ''repos/acme/tool/contents/.github/workflows'']
      then JsonList [''ci.yml''] else CalledProcessError)"

definition example_files :: "config_file list" where
  "example_files = [\<lparr>path = Some ''config.yml''\<rparr>, \<lparr>path = None\<rparr>]"

section \<open>Top technologies (\<open>generate_reports.get_top_technologies\<close>)\<close>

text \<open>
  Of a repository record the function reads \<open>repo.get('tech_stack', [])\<close> only.
\<close>

record repository =
  tech_stack :: "string list option"

text \<open>The body of the inner loop: one more occurrence of \<open>tech\<close>.\<close>

definition count_tech :: "(string, nat) dict \<Rightarrow> string \<Rightarrow> (string, nat) dict" where
  "count_tech tech_counts tech =
     (case map_of tech_counts tech of
        Some c \<Rightarrow> AList.update tech (c + 1) tech_counts
      | None \<Rightarrow> AList.update tech 1 tech_counts)"

definition tech_counts :: "repository list \<Rightarrow> (string, nat) dict" where
  "tech_counts repositories =
     foldl (\<lambda>acc repo. foldl count_tech acc (get_or (tech_stack repo) [])) [] repositories"

text \<open>
  \<open>sorted(xs, key=key, reverse=True)\<close>. Python's sort is stable, and with
  \<open>reverse=True\<close> it stays stable: elements with equal keys keep their original order.
  It is the reversal of the stable ascending sort of the reversed list.
\<close>

definition sorted_reverse :: "('a \<Rightarrow> 'k::linorder) \<Rightarrow> 'a list \<Rightarrow> 'a list" where
  "sorted_reverse key xs = rev (sort_key key (rev xs))"

text \<open>
  \<open>xs[:n]\<close>: the first \<open>n\<close> elements, and for a negative \<open>n\<close> all but the last \<open>-n\<close>.
\<close>

definition slice_to :: "int \<Rightarrow> 'a list \<Rightarrow> 'a list" where
  "slice_to n xs = (if 0 \<le> n then take (nat n) xs else take (length xs - nat (- n)) xs)"

definition get_top_technologies :: "repository list \<Rightarrow> int \<Rightarrow> (string \<times> nat) list" where
  "get_top_technologies repositories top_n =
     slice_to top_n (sorted_reverse snd (tech_counts repositories))"

text \<open>
  For the statement of the result: the tags of all records in the order in which the
  loops meet them, and a list reduced to the first occurrence of each of its elements
  (\<open>remdups\<close> keeps the last occurrence of each element, so the list is reversed around
  it).
\<close>

definition all_tags :: "repository list \<Rightarrow> string list" where
  "all_tags repositories = concat (map (\<lambda>repo. get_or (tech_stack repo) []) repositories)"

definition first_seen :: "'a list \<Rightarrow> 'a list" where
  "first_seen xs = rev (remdups (rev xs))"

definition example_repositories :: "repository list" where
  "example_repositories =
     [\<lparr>tech_stack = Some [''c'', ''a'', ''b'']\<rparr>, \<lparr>tech_stack = None\<rparr>,
      \<lparr>tech_stack = Some [''b'', ''a'']\<rparr>, \<lparr>tech_stack = Some [''a'', ''b'']\<rparr>]"

section \<open>README summary (\<open>analyze_repos.analyze_repositories\<close>, summary extraction)\<close>














section \<open>Facts about the string functions\<close>

lemma startswith_iff: "startswith s p \<longleftrightarrow> (\<exists>r. s = p @ r)"
  by (induction s p rule: startswith.induct) auto

lemma contains_iff: "contains sub s \<longleftrightarrow> (\<exists>pre post. s = pre @ sub @ post)"
proof (induction s)
  case Nil
  then show ?case by auto
next
  case (Cons c cs)
  show ?case
  proof
    assume "contains sub (c # cs)"
    then consider "startswith (c # cs) sub" | "contains sub cs" by auto
    then show "\<exists>pre post. c # cs = pre @ sub @ post"
    proof cases
      case 1
      then obtain r where "c # cs = sub @ r" by (auto simp: startswith_iff)
      then have "c # cs = [] @ sub @ r" by simp
      then show ?thesis by blast
    next
      case 2
      then obtain pre post where "cs = pre @ sub @ post" using Cons.IH by auto
      then have "c # cs = (c # pre) @ sub @ post" by simp
      then show ?thesis by blast
    qed
  next
    assume "\<exists>pre post. c # cs = pre @ sub @ post"
    then obtain pre post where e: "c # cs = pre @ sub @ post" by auto
    show "contains sub (c # cs)"
    proof (cases pre)
      case Nil
      with e have "startswith (c # cs) sub" by (auto simp: startswith_iff)
      then show ?thesis by simp
    next
      case (Cons a pre')
      with e have "cs = pre' @ sub @ post" by simp
      then have "contains sub cs" using Cons.IH by blast
      then show ?thesis by simp
    qed
  qed
qed

lemma lower_char_not_upper: "lower_char c \<notin> set ascii_upper"
  by (simp add: lower_char_def ascii_upper_def ascii_lower_def)

lemma lower_no_upper: "c \<in> set ascii_upper \<Longrightarrow> c \<notin> set (lower s)"
  using lower_char_not_upper by (auto simp: lower_def)

lemma lower_neq_CONTRIBUTING: "lower s \<noteq> ''CONTRIBUTING.md''"
proof
  assume "lower s = ''CONTRIBUTING.md''"
  then have "CHR ''C'' \<in> set (lower s)" by simp
  moreover have "CHR ''C'' \<in> set ascii_upper" by (simp add: ascii_upper_def)
  ultimately show False using lower_no_upper by blast
qed

lemma lower_neq_CHANGELOG: "lower s \<noteq> ''CHANGELOG.md''"
proof
  assume "lower s = ''CHANGELOG.md''"
  then have "CHR ''C'' \<in> set (lower s)" by simp
  moreover have "CHR ''C'' \<in> set ascii_upper" by (simp add: ascii_upper_def)
  ultimately show False using lower_no_upper by blast
qed

lemma lower_example [simp]:
  "lower ''Version 2.0: see CONTRIBUTING and the Changelog'' =
     ''version 2.0: see contributing and the changelog''"
  by (simp add: lower_def lower_char_def ascii_upper_def ascii_lower_def)

lemma example_paths_lower [simp]:
  "config_file_paths (example_repo r) =
     [''kubernetes/deploy.yaml'', ''tests/unit.spec.js'', ''.github/workflows/ci.yml'']"
  by (simp add: config_file_paths_def example_repo_def example_paths_def get_or_def lower_def
      lower_char_def ascii_upper_def ascii_lower_def)

lemma example_deploy [simp]: "deploy_files (example_repo r) = [''kubernetes/deploy.yaml'']"
  by (simp add: deploy_files_def)

lemma example_test [simp]: "test_files (example_repo r) = [''tests/unit.spec.js'']"
  by (simp add: test_files_def)

lemma example_cicd [simp]: "cicd_files (example_repo r) = [''.github/workflows/ci.yml'']"
  by (simp add: cicd_files_def)

lemma example_services [simp]:
  "has_monitoring (example_repo r)" "has_security (example_repo r)"
  by (simp_all add: has_monitoring_def has_security_def example_repo_def get_or_def dict_get_def)

lemma example_readme [simp]: "readme_lower (example_repo r) = lower r"
  by (simp add: readme_lower_def example_repo_def get_or_def)

lemma lower_example_beta [simp]:
  "lower ''Version 2.0 (see the Changelog)'' = ''version 2.0 (see the changelog)''"
  by (simp add: lower_def lower_char_def ascii_upper_def ascii_lower_def)

section \<open>Theorems about maturity estimation\<close>

text \<open>
  Claim C2. When deployment files, test files, CI/CD files and a version number are all
  present but contributing, changelog, monitoring and security are not all present, the
  estimate is Beta and not Alpha: the inner branch that yields Alpha cannot be reached.
\<close>

theorem maturity_beta_inner_branch:
  assumes "deploy_files rd \<noteq> []" and "test_files rd \<noteq> []" and "cicd_files rd \<noteq> []"
    and "has_version rd"
    and "\<not> (has_contributing rd \<and> has_changelog rd \<and> has_monitoring rd \<and> has_security rd)"
  shows "estimate_project_maturity rd = ''Beta'' \<and> estimate_project_maturity rd \<noteq> ''Alpha''"
proof -
  from assms have "estimate_project_maturity rd = ''Beta''"
    unfolding estimate_project_maturity_def by auto
  then show ?thesis by simp
qed

theorem maturity_beta_inner_branch_witness:
  "deploy_files (example_repo ''Version 2.0 (see the Changelog)'') \<noteq> []
   \<and> test_files (example_repo ''Version 2.0 (see the Changelog)'') \<noteq> []
   \<and> cicd_files (example_repo ''Version 2.0 (see the Changelog)'') \<noteq> []
   \<and> has_version (example_repo ''Version 2.0 (see the Changelog)'')
   \<and> \<not> has_contributing (example_repo ''Version 2.0 (see the Changelog)'')
   \<and> estimate_project_maturity (example_repo ''Version 2.0 (see the Changelog)'') = ''Beta''"
proof -
  let ?rd = "example_repo ''Version 2.0 (see the Changelog)''"
  have v: "has_version ?rd" by (simp add: has_version_def match_version_def is_digit_def)
  have c: "\<not> has_contributing ?rd"
    by (simp add: has_contributing_def)
  have d: "deploy_files ?rd \<noteq> []" and t: "test_files ?rd \<noteq> []" and i: "cicd_files ?rd \<noteq> []"
    by simp_all
  from c have n: "\<not> (has_contributing ?rd \<and> has_changelog ?rd \<and> has_monitoring ?rd \<and> has_security ?rd)"
    by simp
  show ?thesis using maturity_beta_inner_branch [OF d t i v n] d t i v c by simp
qed

text \<open>
  Claim C4. When deployment files, test files, CI/CD files and a version number are all
  present, and contributing, changelog, the sentry flag and the snyk flag hold as well,
  the estimate is Production-Ready.
\<close>

theorem maturity_production_ready:
  assumes "deploy_files rd \<noteq> []" and "test_files rd \<noteq> []" and "cicd_files rd \<noteq> []"
    and "has_version rd"
    and "has_contributing rd" and "has_changelog rd"
    and "dict_get (get_or (services rd) []) ''sentry'' False"
    and "dict_get (get_or (services rd) []) ''snyk'' False"
  shows "estimate_project_maturity rd = ''Production-Ready''"
  using assms unfolding estimate_project_maturity_def has_monitoring_def has_security_def
  by simp

theorem maturity_production_ready_witness:
  "estimate_project_maturity
     (example_repo ''Version 2.0: see CONTRIBUTING and the Changelog'') = ''Production-Ready''"
proof -
  let ?rd = "example_repo ''Version 2.0: see CONTRIBUTING and the Changelog''"
  have v: "has_version ?rd" by (simp add: has_version_def match_version_def is_digit_def)
  have c: "has_contributing ?rd" by (simp add: has_contributing_def)
  have l: "has_changelog ?rd" by (simp add: has_changelog_def)
  have d: "deploy_files ?rd \<noteq> []" and t: "test_files ?rd \<noteq> []" and i: "cicd_files ?rd \<noteq> []"
    by simp_all
  have m: "dict_get (get_or (services ?rd) []) ''sentry'' False"
    and s: "dict_get (get_or (services ?rd) []) ''snyk'' False"
    by (simp_all add: example_repo_def get_or_def dict_get_def)
  show ?thesis by (rule maturity_production_ready [OF d t i v c l m s])
qed

text \<open>
  Claim C5. The estimate is always one of Alpha, Beta, Production-Ready and Legacy; the
  initial value Unknown is never returned.
\<close>

theorem maturity_enumerated:
  "estimate_project_maturity rd \<in> {''Alpha'', ''Beta'', ''Production-Ready'', ''Legacy''}
   \<and> estimate_project_maturity rd \<noteq> ''Unknown''"
  unfolding estimate_project_maturity_def by simp

theorem maturity_enumerated_witness:
  "estimate_project_maturity
     \<lparr>languages = None, readme = Some ''This project is ARCHIVED'', techbragging = None,
      config_files = Some [], services = Some []\<rparr> = ''Legacy''"
proof -
  let ?rd = "\<lparr>languages = None, readme = Some ''This project is ARCHIVED'', techbragging = None,
      config_files = Some [], services = Some []\<rparr>"
  have p: "config_file_paths ?rd = []" by (simp add: config_file_paths_def get_or_def)
  have a: "contains ''archived'' (readme_lower ?rd)"
    by (simp add: readme_lower_def get_or_def lower_def lower_char_def ascii_upper_def
        ascii_lower_def)
  have "estimate_project_maturity ?rd \<noteq> ''Production-Ready''"
    by (simp add: estimate_project_maturity_def deploy_files_def p)
  moreover have "estimate_project_maturity ?rd \<noteq> ''Beta''"
    by (simp add: estimate_project_maturity_def deploy_files_def p)
  moreover have "estimate_project_maturity ?rd \<noteq> ''Alpha''"
    using a by (simp add: estimate_project_maturity_def deploy_files_def test_files_def p)
  ultimately show ?thesis using maturity_enumerated [of ?rd] by auto
qed

text \<open>
  Claim C10. The path clause of \<open>has_contributing\<close> looks for the string
  \<open>CONTRIBUTING.md\<close> in the list of lowercased paths, and no lowercased string has a
  capital letter: the clause is false for every path list, and \<open>has_contributing\<close> holds
  exactly when the lowercased README contains \<open>contributing\<close>. The same holds for
  \<open>CHANGELOG.md\<close> and \<open>has_changelog\<close>.
\<close>

theorem contributing_path_clause_dead:
  "\<not> ''CONTRIBUTING.md'' \<in> set (config_file_paths rd)
   \<and> has_contributing rd = contains ''contributing'' (readme_lower rd)
   \<and> \<not> ''CHANGELOG.md'' \<in> set (config_file_paths rd)
   \<and> has_changelog rd = contains ''changelog'' (readme_lower rd)"
proof -
  have a: "\<not> ''CONTRIBUTING.md'' \<in> set (config_file_paths rd)"
    by (auto simp: config_file_paths_def lower_neq_CONTRIBUTING [THEN not_sym])
  have b: "\<not> ''CHANGELOG.md'' \<in> set (config_file_paths rd)"
    by (auto simp: config_file_paths_def lower_neq_CHANGELOG [THEN not_sym])
  show ?thesis using a b by (simp add: has_contributing_def has_changelog_def)
qed

theorem contributing_path_clause_dead_witness:
  "\<not> has_contributing
       \<lparr>languages = None, readme = Some ''A small tool'', techbragging = None,
        config_files = Some [\<lparr>path = Some ''CONTRIBUTING.md''\<rparr>, \<lparr>path = Some ''CHANGELOG.md''\<rparr>],
        services = None\<rparr>
   \<and> \<not> has_changelog
       \<lparr>languages = None, readme = Some ''A small tool'', techbragging = None,
        config_files = Some [\<lparr>path = Some ''CONTRIBUTING.md''\<rparr>, \<lparr>path = Some ''CHANGELOG.md''\<rparr>],
        services = None\<rparr>"
proof -
  let ?rd = "\<lparr>languages = None, readme = Some ''A small tool'', techbragging = None,
        config_files = Some [\<lparr>path = Some ''CONTRIBUTING.md''\<rparr>, \<lparr>path = Some ''CHANGELOG.md''\<rparr>],
        services = None\<rparr>"
  have r: "readme_lower ?rd = ''a small tool''"
    by (simp add: readme_lower_def get_or_def lower_def lower_char_def ascii_upper_def
        ascii_lower_def)
  show ?thesis using contributing_path_clause_dead [of ?rd] by (simp add: r)
qed

section \<open>Facts about the tag loops\<close>

lemma set_set_add: "set (set_add x ts) = insert x (set ts)"
  by (auto simp: set_add_def)

lemma distinct_set_add: "distinct ts \<Longrightarrow> distinct (set_add x ts)"
  by (simp add: set_add_def)

lemma set_language_loop:
  "set (foldl (\<lambda>acc lang. set_add (lower lang) acc) ts ks) = set ts \<union> lower ` set ks"
  by (induction ks arbitrary: ts) (auto simp: set_set_add)

lemma distinct_language_loop:
  "distinct ts \<Longrightarrow> distinct (foldl (\<lambda>acc lang. set_add (lower lang) acc) ts ks)"
  by (induction ks arbitrary: ts) (auto simp: distinct_set_add)

lemma set_add_languages:
  "set (add_languages rd ts) = set ts \<union> lower ` fst ` set (get_or (languages rd) [])"
  by (auto simp: add_languages_def get_or_def set_language_loop split: option.splits)

lemma distinct_add_languages: "distinct ts \<Longrightarrow> distinct (add_languages rd ts)"
  by (auto simp: add_languages_def distinct_language_loop split: option.splits)

lemma set_add_keywords:
  "set (add_keywords kws c ts) = set ts \<union> lower ` {k \<in> set kws. keyword_search k c}"
  unfolding add_keywords_def
  by (induction kws arbitrary: ts) (auto simp: set_set_add)

lemma distinct_add_keywords: "distinct ts \<Longrightarrow> distinct (add_keywords kws c ts)"
  unfolding add_keywords_def
  by (induction kws arbitrary: ts) (auto simp: distinct_set_add)

lemma fst_scan_aliases:
  "fst (scan_aliases tech as c ts) = (if \<exists>a\<in>set as. contains a c then set_add tech ts else ts)"
  by (induction as) (auto split: prod.splits)

lemma snd_scan_aliases:
  "\<exists>a\<in>set as. contains a c \<Longrightarrow>
     snd (scan_aliases tech as c ts) = Suc (length (takeWhile (\<lambda>a. \<not> contains a c) as))"
proof (induction as)
  case Nil
  then show ?case by simp
next
  case (Cons a as)
  show ?case
  proof (cases "contains a c")
    case True
    then show ?thesis by simp
  next
    case False
    with Cons.prems have "\<exists>a\<in>set as. contains a c" by simp
    then have "snd (scan_aliases tech as c ts) = Suc (length (takeWhile (\<lambda>a. \<not> contains a c) as))"
      by (rule Cons.IH)
    with False show ?thesis by (auto split: prod.splits)
  qed
qed

lemma set_add_frameworks:
  "set (add_frameworks table c ts) =
     set ts \<union> {tech. \<exists>as. (tech, as) \<in> set table \<and> (\<exists>a\<in>set as. contains a c)}"
  unfolding add_frameworks_def
proof (induction table arbitrary: ts)
  case Nil
  then show ?case by simp
next
  case (Cons e table)
  obtain tech as where e: "e = (tech, as)" by (cases e)
  let ?F = "\<lambda>acc (tech, aliases). fst (scan_aliases tech aliases c acc)"
  have "foldl ?F ts (e # table) = foldl ?F (fst (scan_aliases tech as c ts)) table"
    by (simp add: e)
  then have "set (foldl ?F ts (e # table)) =
      set (fst (scan_aliases tech as c ts))
      \<union> {tech. \<exists>as. (tech, as) \<in> set table \<and> (\<exists>a\<in>set as. contains a c)}"
    by (simp only: Cons.IH)
  also have "set (fst (scan_aliases tech as c ts)) =
      set ts \<union> (if \<exists>a\<in>set as. contains a c then {tech} else {})"
    by (simp add: fst_scan_aliases set_set_add)
  finally show ?case
    unfolding e by auto
qed

lemma distinct_add_frameworks: "distinct ts \<Longrightarrow> distinct (add_frameworks table c ts)"
  unfolding add_frameworks_def
proof (induction table arbitrary: ts)
  case Nil
  then show ?case by simp
next
  case (Cons e table)
  obtain tech as where e: "e = (tech, as)" by (cases e)
  have "distinct (fst (scan_aliases tech as c ts))"
    using Cons.prems by (simp add: fst_scan_aliases distinct_set_add)
  then have "distinct (foldl (\<lambda>acc (tech, aliases). fst (scan_aliases tech aliases c acc))
      (fst (scan_aliases tech as c ts)) table)"
    by (rule Cons.IH)
  then show ?case
    by (simp add: e)
qed

lemma distinct_detect_tech_stack: "distinct (detect_tech_stack rd kws)"
  unfolding detect_tech_stack_def
  by (intro distinct_add_frameworks distinct_add_keywords distinct_add_languages) simp

lemma set_detect_tech_stack:
  "set (detect_tech_stack rd kws) =
     lower ` fst ` set (get_or (languages rd) [])
     \<union> lower ` {k \<in> set kws. keyword_search k (corpus rd)}
     \<union> {tech. \<exists>as. (tech, as) \<in> set frameworks \<and> (\<exists>a\<in>set as. contains a (corpus rd))}"
  unfolding detect_tech_stack_def
  by (simp add: set_add_frameworks set_add_keywords set_add_languages)

lemma count_list_distinct: "distinct xs \<Longrightarrow> x \<in> set xs \<Longrightarrow> count_list xs x = 1"
  by (induction xs) auto

lemma keyword_search_iff:
  "keyword_search k c \<longleftrightarrow> (\<exists>pre post. c = pre @ backslash_b @ lower k @ backslash_b @ post)"
  by (simp add: keyword_search_def contains_iff)

section \<open>Theorems about technology stack detection\<close>

text \<open>
  Claim C1, at the input where the code departs from it. The README holds the keyword
  \<open>python\<close> as a word of its own, and the keyword test fails all the same: the pattern
  asks for a backslash and a b on each side of the keyword. The returned list is empty.
\<close>

theorem keyword_standalone_word_not_tagged:
  "contains ''python'' (corpus (plain_repo ''We use Python daily''))
   \<and> keyword_search ''python'' (corpus (plain_repo ''We use Python daily'')) = False
   \<and> detect_tech_stack (plain_repo ''We use Python daily'') [''python''] = []"
  by code_simp

text \<open>
  Claim C7. Every key of the language map, lowercased, is among the returned tags,
  whatever its byte count and whatever the README and the keywords are.
\<close>

theorem language_keys_tagged:
  assumes "languages rd = Some langs" and "(k, n) \<in> set langs"
  shows "lower k \<in> set (detect_tech_stack rd keywords)"
proof -
  from assms have "k \<in> fst ` set (get_or (languages rd) [])"
    by (force simp: get_or_def)
  then show ?thesis by (simp add: set_detect_tech_stack)
qed

theorem language_keys_tagged_witness:
  "''typescript'' \<in> set (detect_tech_stack
       \<lparr>languages = Some [(''Python'', 1200), (''TypeScript'', 0)], readme = None,
        techbragging = None, config_files = None, services = None\<rparr> [])"
proof -
  let ?rd = "\<lparr>languages = Some [(''Python'', 1200), (''TypeScript'', 0::nat)], readme = None,
        techbragging = None, config_files = None, services = None\<rparr>"
  have l: "languages ?rd = Some [(''Python'', 1200), (''TypeScript'', 0)]" by simp
  have m: "(''TypeScript'', 0) \<in> set [(''Python'', 1200::nat), (''TypeScript'', 0)]" by simp
  have "lower ''TypeScript'' = ''typescript''"
    by (simp add: lower_def lower_char_def ascii_upper_def ascii_lower_def)
  then show ?thesis using language_keys_tagged [OF l m, of "[]"] by simp
qed

text \<open>
  Claim C6. For a technology of the alias table, when one of its aliases is a substring
  of the lowercased content, the canonical name is in the result exactly once, however
  many aliases match; and the loop over the aliases stops at the first one that matches:
  it tests the aliases before that one and that one, and none after it.
\<close>

theorem framework_tag_once_and_short_circuit:
  assumes "(tech, aliases) \<in> set frameworks"
    and "\<exists>a\<in>set aliases. contains a (corpus rd)"
  shows "count_list (detect_tech_stack rd keywords) tech = 1
    \<and> snd (scan_aliases tech aliases (corpus rd) ts)
        = Suc (length (takeWhile (\<lambda>a. \<not> contains a (corpus rd)) aliases))"
proof -
  from assms have "tech \<in> set (detect_tech_stack rd keywords)"
    unfolding set_detect_tech_stack by blast
  then have "count_list (detect_tech_stack rd keywords) tech = 1"
    by (rule count_list_distinct [OF distinct_detect_tech_stack])
  then show ?thesis using assms(2) by (simp add: snd_scan_aliases)
qed

theorem framework_tag_once_and_short_circuit_witness:
  "(''react'', react_aliases) \<in> set frameworks
   \<and> (\<exists>a\<in>set react_aliases. contains a (corpus (plain_repo ''Built with Next.js and JSX'')))
   \<and> count_list (detect_tech_stack (plain_repo ''Built with Next.js and JSX'') []) ''react'' = 1
   \<and> snd (scan_aliases ''react'' react_aliases (corpus (plain_repo ''Built with Next.js and JSX'')) [])
       = 2"
proof -
  let ?rd = "plain_repo ''Built with Next.js and JSX''"
  have t: "(''react'', react_aliases) \<in> set frameworks"
    by (simp add: frameworks_def react_aliases_def)
  have c: "contains ''jsx'' (corpus ?rd)" by code_simp
  then have a: "\<exists>a\<in>set react_aliases. contains a (corpus ?rd)"
    by (simp add: react_aliases_def)
  have n: "length (takeWhile (\<lambda>a. \<not> contains a (corpus ?rd)) react_aliases) = 1"
    by code_simp
  show ?thesis
    using framework_tag_once_and_short_circuit [OF t a, of "[]" "[]"] t a n by simp
qed

section \<open>Facts about service detection\<close>

lemma map_of_init_loop:
  "map_of (foldl (\<lambda>d service. AList.update service False d) d kws) k =
     (if k \<in> set kws then Some False else map_of d k)"
  by (induction kws arbitrary: d) (auto simp: update_conv')

lemma map_of_init_services:
  "map_of (init_services kws) k = (if k \<in> set kws then Some False else None)"
  by (simp add: init_services_def map_of_init_loop)

lemma map_of_mark_services:
  "map_of (mark_services kws c d) k =
     (if k \<in> set kws \<and> contains (lower k) c then Some True else map_of d k)"
  unfolding mark_services_def
  by (induction kws arbitrary: d) (auto simp: update_conv')

lemma map_of_scan_file:
  "map_of (scan_file gfc org repo kws d f) k =
     (if k \<in> set kws \<and> file_evidence gfc org repo f k then Some True else map_of d k)"
  by (auto simp: scan_file_def file_evidence_def map_of_mark_services split: option.splits)

lemma map_of_scan_files:
  "map_of (foldl (scan_file gfc org repo kws) d cfs) k =
     (if k \<in> set kws \<and> (\<exists>f\<in>set cfs. file_evidence gfc org repo f k) then Some True
      else map_of d k)"
  by (induction cfs arbitrary: d) (auto simp: map_of_scan_file)

lemma map_of_detect_services:
  "map_of (detect_services gfc gh org repo cfs kws) k =
     (if workflows_listed gh org repo \<and> k = ''github actions'' then Some True
      else if k \<in> set kws then Some (evidence gfc org repo cfs k)
      else None)"
  by (auto simp: detect_services_def Let_def map_of_scan_files map_of_init_services
      update_conv' evidence_def list_ex_iff)

lemma keys_detect_services:
  "set (map fst (detect_services gfc gh org repo cfs kws)) =
     set kws \<union> (if workflows_listed gh org repo then {''github actions''} else {})"
proof -
  have "set (map fst (detect_services gfc gh org repo cfs kws)) =
      dom (map_of (detect_services gfc gh org repo cfs kws))"
    by (simp add: dom_map_of_conv_image_fst)
  also have "\<dots> = set kws \<union> (if workflows_listed gh org repo then {''github actions''} else {})"
    by (auto simp: dom_def map_of_detect_services split: if_splits)
  finally show ?thesis .
qed

section \<open>Theorems about service detection\<close>

text \<open>
  Claim C3 says that the keys of the returned mapping are exactly the keyword vocabulary.
  With a vocabulary of \<open>sentry\<close> and \<open>snyk\<close>, no configuration file and one workflow
  listed, the result has the key \<open>github actions\<close> as well.
\<close>

theorem detect_services_keys_counterexample:
  "set (map fst (detect_services example_content example_gh ''acme'' ''tool'' [] [''sentry'', ''snyk'']))
     \<noteq> set [''sentry'', ''snyk'']"
proof -
  have "''github actions'' \<in>
      set (map fst (detect_services example_content example_gh ''acme'' ''tool'' [] [''sentry'', ''snyk'']))"
    by code_simp
  moreover have "''github actions'' \<notin> set [''sentry'', ''snyk'']" by simp
  ultimately show ?thesis by metis
qed

text \<open>
  Claim C3, as amended. The keys of the returned mapping are the keyword vocabulary,
  together with \<open>github actions\<close> when the workflows listing is a list with at least one
  entry, and no other key. Every vocabulary entry is present; its flag is true when some
  file gives evidence for it (or when it is \<open>github actions\<close> and a workflow is listed),
  and false otherwise.
\<close>

theorem detect_services_keys:
  "set (map fst (detect_services gfc gh org repo cfs kws)) =
     set kws \<union> (if workflows_listed gh org repo then {''github actions''} else {})
   \<and> (\<forall>k\<in>set kws. map_of (detect_services gfc gh org repo cfs kws) k =
         Some (evidence gfc org repo cfs k \<or> (workflows_listed gh org repo \<and> k = ''github actions'')))"
proof (intro conjI ballI)
  show "set (map fst (detect_services gfc gh org repo cfs kws)) =
      set kws \<union> (if workflows_listed gh org repo then {''github actions''} else {})"
    by (rule keys_detect_services)
next
  fix k assume "k \<in> set kws"
  then show "map_of (detect_services gfc gh org repo cfs kws) k =
      Some (evidence gfc org repo cfs k \<or> (workflows_listed gh org repo \<and> k = ''github actions''))"
    by (auto simp: map_of_detect_services)
qed

theorem detect_services_keys_witness:
  "set (map fst (detect_services example_content example_gh ''acme'' ''tool'' example_files
          [''Sentry'', ''snyk''])) = {''Sentry'', ''snyk'', ''github actions''}
   \<and> map_of (detect_services example_content example_gh ''acme'' ''tool'' example_files
          [''Sentry'', ''snyk'']) ''Sentry'' = Some True
   \<and> map_of (detect_services example_content example_gh ''acme'' ''tool'' example_files
          [''Sentry'', ''snyk'']) ''snyk'' = Some False"
proof -
  have w: "workflows_listed example_gh ''acme'' ''tool''" by code_simp
  have e1: "evidence example_content ''acme'' ''tool'' example_files ''Sentry''" by code_simp
  have e2: "\<not> evidence example_content ''acme'' ''tool'' example_files ''snyk''" by code_simp
  show ?thesis
    using detect_services_keys [of example_content example_gh "''acme''" "''tool''" example_files
        "[''Sentry'', ''snyk'']"] w e1 e2
    by auto
qed

section \<open>Facts about counting and sorting\<close>

lemma remdups_snoc: "remdups (xs @ [t]) = filter (\<lambda>x. x \<noteq> t) (remdups xs) @ [t]"
  by (induction xs) auto

lemma first_seen_Cons: "first_seen (t # ts) = t # filter (\<lambda>x. x \<noteq> t) (first_seen ts)"
  by (simp add: first_seen_def remdups_snoc rev_filter)

lemma first_seen_Nil: "first_seen [] = []"
  by (simp add: first_seen_def)

lemma distinct_first_seen: "distinct (first_seen xs)"
  by (simp add: first_seen_def)

lemma set_first_seen: "set (first_seen xs) = set xs"
  by (simp add: first_seen_def)

lemma keys_count_tech:
  "map fst (count_tech d t) = (if t \<in> fst ` set d then map fst d else map fst d @ [t])"
  by (auto simp: count_tech_def update_keys map_of_eq_None_iff split: option.splits)

lemma map_of_count_tech:
  "map_of (count_tech d t) k = (if k = t then Some (dict_get d t 0 + 1) else map_of d k)"
  by (auto simp: count_tech_def update_conv' dict_get_def split: option.splits)

lemma keys_count_loop:
  "map fst (foldl count_tech d ts) =
     map fst d @ filter (\<lambda>t. t \<notin> fst ` set d) (first_seen ts)"
proof (induction ts arbitrary: d)
  case Nil
  then show ?case by (simp add: first_seen_Nil)
next
  case (Cons t ts)
  have "map fst (foldl count_tech d (t # ts)) =
      map fst (count_tech d t) @ filter (\<lambda>x. x \<notin> fst ` set (count_tech d t)) (first_seen ts)"
    by (simp add: Cons.IH)
  also have "fst ` set (count_tech d t) = insert t (fst ` set d)"
    using keys_count_tech [of d t, THEN arg_cong, of set] by (auto split: if_splits)
  finally show ?case
    by (auto simp: keys_count_tech first_seen_Cons intro!: filter_cong)
qed

lemma map_of_count_loop:
  "map_of (foldl count_tech d ts) k =
     (if k \<in> set ts then Some (dict_get d k 0 + count_list ts k) else map_of d k)"
proof (induction ts arbitrary: d)
  case Nil
  then show ?case by simp
next
  case (Cons t ts)
  show ?case
    by (auto simp: Cons.IH map_of_count_tech dict_get_def)
qed

lemma tech_counts_flat: "tech_counts repos = foldl count_tech [] (all_tags repos)"
proof -
  have "foldl (\<lambda>acc repo. foldl count_tech acc (get_or (tech_stack repo) [])) d repos =
      foldl count_tech d (all_tags repos)" for d
    by (induction repos arbitrary: d) (simp_all add: all_tags_def)
  then show ?thesis by (simp add: tech_counts_def)
qed

lemma dict_by_keys:
  "distinct (map fst xs) \<Longrightarrow> xs = map (\<lambda>k. (k, the (map_of xs k))) (map fst xs)"
proof (induction xs)
  case Nil
  then show ?case by simp
next
  case (Cons x xs)
  then have d: "distinct (map fst xs)" and n: "fst x \<notin> fst ` set xs" by auto
  have "map (\<lambda>k. (k, the (map_of (x # xs) k))) (map fst xs) =
      map (\<lambda>k. (k, the (map_of xs k))) (map fst xs)"
    using n by (intro map_cong) (force simp: image_iff)+
  with Cons.IH [OF d] show ?case by (cases x) simp
qed

lemma tech_counts_eq:
  "tech_counts repos = map (\<lambda>t. (t, count_list (all_tags repos) t)) (first_seen (all_tags repos))"
proof -
  let ?d = "tech_counts repos" and ?ts = "all_tags repos"
  have k: "map fst ?d = first_seen ?ts"
    by (simp add: tech_counts_flat keys_count_loop)
  then have "distinct (map fst ?d)" by (simp add: distinct_first_seen)
  then have "?d = map (\<lambda>k. (k, the (map_of ?d k))) (map fst ?d)" by (rule dict_by_keys)
  also have "\<dots> = map (\<lambda>k. (k, the (map_of ?d k))) (first_seen ?ts)" by (simp only: k)
  also have "\<dots> = map (\<lambda>t. (t, count_list ?ts t)) (first_seen ?ts)"
    by (intro map_cong) (auto simp: tech_counts_flat map_of_count_loop set_first_seen dict_get_def)
  finally show ?thesis .
qed

lemma mset_sorted_reverse: "mset (sorted_reverse f xs) = mset xs"
  by (simp add: sorted_reverse_def)

lemma sorted_reverse_descending: "sorted_wrt (\<lambda>p q. f p \<ge> f q) (sorted_reverse f xs)"
proof -
  have "sorted (map f (sort_key f (rev xs)))" by (rule sorted_sort_key)
  then have "sorted_wrt (\<lambda>p q. f p \<le> f q) (sort_key f (rev xs))" by (simp add: sorted_map)
  then show ?thesis by (simp add: sorted_reverse_def sorted_wrt_rev)
qed

lemma sorted_reverse_stable:
  "filter (\<lambda>p. f p = c) (sorted_reverse f xs) = filter (\<lambda>p. f p = c) xs"
  by (simp add: sorted_reverse_def rev_filter [symmetric] sort_key_stable)

section \<open>Theorems about top technologies\<close>

text \<open>
  Claim C9. For a count \<open>n\<close> (not negative), \<open>get_top_technologies\<close> returns the first
  \<open>n\<close> pairs of the sorted list of tag counts. The tag counts pair every tag, in the
  order of first encounter, with the number of its occurrences across all records. The
  sorted list is a permutation of the tag counts, in descending order of count, and
  among pairs of equal count it keeps the order of first encounter.
\<close>

theorem top_technologies_sorted_stable:
  assumes "0 \<le> n"
  shows "get_top_technologies repos n = take (nat n) (sorted_reverse snd (tech_counts repos))
    \<and> tech_counts repos = map (\<lambda>t. (t, count_list (all_tags repos) t)) (first_seen (all_tags repos))
    \<and> mset (sorted_reverse snd (tech_counts repos)) = mset (tech_counts repos)
    \<and> sorted_wrt (\<lambda>p q. snd p \<ge> snd q) (sorted_reverse snd (tech_counts repos))
    \<and> (\<forall>c. filter (\<lambda>p. snd p = c) (sorted_reverse snd (tech_counts repos))
            = filter (\<lambda>p. snd p = c) (tech_counts repos))"
  using assms tech_counts_eq [of repos]
  by (simp add: get_top_technologies_def slice_to_def mset_sorted_reverse
      sorted_reverse_descending sorted_reverse_stable)

text \<open>
  The example of the specification: with the counts a:3, b:3, c:1 and \<open>n = 2\<close> the
  result is a and b, in the order in which they were first seen.
\<close>

theorem top_technologies_sorted_stable_witness:
  "(0::int) \<le> 2
   \<and> tech_counts example_repositories = [(''c'', 1), (''a'', 3), (''b'', 3)]
   \<and> get_top_technologies example_repositories 2 = [(''a'', 3), (''b'', 3)]"
proof -
  have h: "(0::int) \<le> 2" by simp
  have c: "tech_counts example_repositories = [(''c'', 1), (''a'', 3), (''b'', 3)]"
    by code_simp
  have e: "take (nat 2) (sorted_reverse snd (tech_counts example_repositories))
      = [(''a'', 3), (''b'', 3)]"
    by code_simp
  show ?thesis
    using top_technologies_sorted_stable [OF h, of example_repositories] c e by simp
qed

section \<open>Facts about the summary\<close>












section \<open>Theorems about the summary\<close>




end
